theory Spec2Isabelle
  imports Complex_Main "HOL-Library.Log_Nat" "HOL-Library.Sublist"
begin

section \<open>Allocation orchestrator: \<open>icetea_lib/ResourceProvider/ResourceProvider.py\<close>\<close>

text \<open>
  Exceptions are values.  \<open>ResourceInitError\<close> and \<open>AllocationError\<close> carry their
  message; \<open>AttributeError\<close> is what Python raises for a method call on \<open>None\<close>.
\<close>

datatype error =
    ResourceInitError string
  | AllocationError string
  | AttributeError string
  | OtherError string

text \<open>The run arguments read by the class (\<open>self.args\<close>).\<close>

record args =
  args_list :: bool
  args_listsuites :: bool
  args_allocator :: string
  args_my_duts :: "string option"

text \<open>
  \<open>ResourceConfig\<close> is an external collaborator; the orchestrator only calls
  \<open>count_hardware()\<close>, \<open>get_dut_configuration()\<close> and \<open>count_duts()\<close>, whose results
  are the fields of this record.
\<close>

record resource_configuration =
  count_hardware :: int
  get_dut_configuration :: "string list"
  count_duts :: int

text \<open>
  An allocator is an external plugin.  The orchestrator calls \<open>allocate\<close> (which
  returns device handles of type \<open>'d\<close> or raises) and \<open>cleanup\<close>.  An allocator
  object counts as true in the tests \<open>if self.allocator\<close>; the unbound field is
  \<open>None\<close>.
\<close>

record 'd allocator =
  allocator_class :: string
  allocate :: "resource_configuration \<Rightarrow> args \<Rightarrow> error + 'd list"

text \<open>
  Calls to the external collaborators are recorded in a trace, in the order in which
  the code makes them: the registry lookup \<open>pluginmanager.get_allocator(name)\<close>,
  the construction \<open>allocator(self.args, None)\<close>, \<open>allocator.allocate(...)\<close> and
  \<open>allocator.cleanup()\<close>.  Logger calls change nothing that is modelled and are left out.
\<close>

datatype event =
    GetAllocator string
  | Construct string
  | Allocate string
  | Cleanup string

type_synonym 'd pluginmanager = "string \<Rightarrow> (args \<Rightarrow> error + 'd allocator) option"

record 'd resource_provider =
  args :: args
  allocator :: "'d allocator option"
  jsonconf :: "string option"
  logger_no_file :: bool
  pluginmanager :: "'d pluginmanager option"
  trace :: "event list"

text \<open>\<open>ResourceProvider.__init__\<close>\<close>

definition init :: "args \<Rightarrow> 'd resource_provider" where
  "init a =
     \<lparr>args = a,
      allocator = None,
      jsonconf = None,
      logger_no_file = (if args_list a \<or> args_listsuites a then False else True),
      pluginmanager = None,
      trace = []\<rparr>"

text \<open>\<open>ResourceProvider.set_pluginmanager\<close>\<close>

definition set_pluginmanager ::
  "'d resource_provider \<Rightarrow> 'd pluginmanager \<Rightarrow> 'd resource_provider" where
  "set_pluginmanager s pm = s\<lparr>pluginmanager := Some pm\<rparr>"

text \<open>
  \<open>ResourceProvider.__get_allocator\<close>.  The lookup on an unset plugin manager is
  Python's \<open>AttributeError\<close>; an absent allocator is \<open>ResourceInitError\<close>; an exception
  of the allocator's constructor propagates.
\<close>

definition get_allocator ::
  "'d resource_provider \<Rightarrow> (error + 'd allocator) \<times> 'd resource_provider" where
  "get_allocator s =
     (let allocator_name = args_allocator (args s) in
      case pluginmanager s of
        None \<Rightarrow> (Inl (AttributeError ''get_allocator''), s)
      | Some pm \<Rightarrow>
          (let s1 = s\<lparr>trace := trace s @ [GetAllocator allocator_name]\<rparr> in
           case pm allocator_name of
             None \<Rightarrow> (Inl (ResourceInitError (''Unable to load allocator '' @ allocator_name)), s1)
           | Some cls \<Rightarrow>
               (let s2 = s1\<lparr>trace := trace s1 @ [Construct allocator_name]\<rparr> in
                case cls (args s) of
                  Inl e \<Rightarrow> (Inl e, s2)
                | Inr a \<Rightarrow> (Inr a, s2))))"

text \<open>
  \<open>ResourceProvider.allocate_duts\<close>.  \<open>cnt_hrdwr\<close> is computed and not used.  The
  allocator is bound first when none is; then, inside the \<open>try\<close>, the allocator's
  \<open>allocate\<close> is called, and only \<open>AllocationError\<close> is caught.
\<close>

definition allocate_duts ::
  "'d resource_provider \<Rightarrow> resource_configuration \<Rightarrow> (error + 'd list) \<times> 'd resource_provider" where
  "allocate_duts s resource_configuration =
     (let cnt_hrdwr = count_hardware resource_configuration in
      case (case allocator s of
              Some a \<Rightarrow> Inr (a, s)
            | None \<Rightarrow>
                (case get_allocator s of
                   (Inl e, s') \<Rightarrow> Inl (e, s')
                 | (Inr a, s') \<Rightarrow> Inr (a, s'\<lparr>allocator := Some a\<rparr>))) of
        Inl (e, s') \<Rightarrow> (Inl e, s')
      | Inr (a, s1) \<Rightarrow>
          (let dut_conf_list = get_dut_configuration resource_configuration;
               s2 = s1\<lparr>trace := trace s1 @ [Allocate (allocator_class a)]\<rparr> in
           case allocate a resource_configuration (args s1) of
             Inl (AllocationError message) \<Rightarrow> (Inl (ResourceInitError message), s2)
           | Inl e \<Rightarrow> (Inl e, s2)
           | Inr allocations \<Rightarrow> (Inr allocations, s2)))"

text \<open>\<open>ResourceProvider.cleanup\<close>: the allocator's \<open>cleanup\<close> is called when one is bound.\<close>

definition cleanup :: "'d resource_provider \<Rightarrow> 'd resource_provider" where
  "cleanup s =
     (case allocator s of
        None \<Rightarrow> s
      | Some a \<Rightarrow> s\<lparr>trace := trace s @ [Cleanup (allocator_class a)]\<rparr>)"

text \<open>\<open>ResourceProvider.__del__\<close>: the allocator's \<open>cleanup\<close> is called, then it is unbound.\<close>

definition del :: "'d resource_provider \<Rightarrow> 'd resource_provider" where
  "del s =
     (case allocator s of
        None \<Rightarrow> s
      | Some a \<Rightarrow> s\<lparr>trace := trace s @ [Cleanup (allocator_class a)], allocator := None\<rparr>)"

section \<open>Singleton metaclass: \<open>icetea_lib/tools/tools.py\<close>\<close>

text \<open>
  The process state seen by \<open>Singleton\<close>: the class-level dictionary \<open>_instances\<close>
  (class name to object reference) and the objects themselves, by reference.
\<close>

record 'o process =
  instances :: "string \<rightharpoonup> nat"
  heap :: "nat \<rightharpoonup> 'o"
  next_ref :: nat

text \<open>
  The call of a class whose metaclass is \<open>type\<close> (\<open>type.__call__\<close>): a new object
  is made and initialised.
\<close>

definition type_call :: "('a \<Rightarrow> 'o) \<Rightarrow> 'a \<Rightarrow> 'o process \<Rightarrow> nat \<times> 'o process" where
  "type_call new a p =
     (let r = next_ref p
      in (r, p\<lparr>heap := (heap p)(r \<mapsto> new a), next_ref := r + 1\<rparr>))"

text \<open>
  \<open>Singleton.__call__(cls, *args)\<close>: \<open>super(Singleton, cls).__call__\<close>, which is
  \<open>type.__call__\<close>, runs only when \<open>cls\<close> has no instance yet.
\<close>

definition singleton_call ::
  "('a \<Rightarrow> 'o) \<Rightarrow> string \<Rightarrow> 'a \<Rightarrow> 'o process \<Rightarrow> nat \<times> 'o process" where
  "singleton_call new cls a p =
     (case instances p cls of
        None \<Rightarrow>
          (case type_call new a p of
             (r, p1) \<Rightarrow> (r, p1\<lparr>instances := (instances p1)(cls \<mapsto> r)\<rparr>))
      | Some r \<Rightarrow> (r, p))"

text \<open>
  The call \<open>ResourceProvider(args)\<close>.  The class names its metaclass by the class
  attribute \<open>__metaclass__ = Singleton\<close>.  Python 2 reads this attribute and calls the
  class through \<open>Singleton.__call__\<close>; Python 3 (\<open>IS_PYTHON3\<close> in \<open>tools.py\<close>) gives
  the attribute no meaning, the metaclass is \<open>type\<close>, and every call constructs.
\<close>

definition ResourceProvider ::
  "bool \<Rightarrow> args \<Rightarrow> 'd resource_provider process \<Rightarrow> nat \<times> 'd resource_provider process" where
  "ResourceProvider is_python3 a p =
     (if is_python3 then type_call init a p
      else singleton_call init ''ResourceProvider'' a p)"

section \<open>Nested requirement lookup: \<open>icetea_lib/tools/tools.py\<close>\<close>

text \<open>
  Configuration values as parsed from JSON.  A dictionary is the list of its items
  with string keys, read with \<open>map_of\<close>.
\<close>

datatype py_value =
    PyNone
  | PyBool bool
  | PyInt int
  | PyStr string
  | PyList "py_value list"
  | PyDict "(string \<times> py_value) list"

text \<open>Python truth value of a value (\<open>not new_dict\<close>, \<open>dictionary and ...\<close>).\<close>

fun truthy :: "py_value \<Rightarrow> bool" where
  "truthy PyNone = False"
| "truthy (PyBool b) = b"
| "truthy (PyInt i) = (i \<noteq> 0)"
| "truthy (PyStr s) = (s \<noteq> [])"
| "truthy (PyList vs) = (vs \<noteq> [])"
| "truthy (PyDict items) = (items \<noteq> [])"

text \<open>\<open>hasattr(v, "get")\<close>: among these values only dictionaries have \<open>get\<close>.\<close>

fun hasattr_get :: "py_value \<Rightarrow> bool" where
  "hasattr_get (PyDict items) = True"
| "hasattr_get v = False"

text \<open>
  \<open>v.get(k)\<close>: the stored value, \<open>None\<close> for a missing key, and \<open>AttributeError\<close>
  when \<open>v\<close> has no \<open>get\<close>.
\<close>

fun dict_get :: "py_value \<Rightarrow> string \<Rightarrow> error + py_value" where
  "dict_get (PyDict items) k = Inr (case map_of items k of None \<Rightarrow> PyNone | Some v \<Rightarrow> v)"
| "dict_get v k = Inl (AttributeError ''get'')"

text \<open>
  \<open>recursive_dictionary_get\<close>.  \<open>keys.split(".", 1)\<close> cuts at the first dot:
  \<open>key[0]\<close> is the text before it and \<open>key[1]\<close> the text after it.
\<close>

function recursive_dictionary_get :: "string \<Rightarrow> py_value \<Rightarrow> error + py_value" where
  "recursive_dictionary_get keys dictionary =
     (if CHR ''.'' \<in> set keys \<and> length keys > 1
      then (let key0 = takeWhile (\<lambda>c. c \<noteq> CHR ''.'') keys;
                key1 = tl (dropWhile (\<lambda>c. c \<noteq> CHR ''.'') keys)
            in case dict_get dictionary key0 of
                 Inl e \<Rightarrow> Inl e
               | Inr new_dict \<Rightarrow>
                   if \<not> truthy new_dict \<or> \<not> hasattr_get new_dict
                   then Inr PyNone
                   else recursive_dictionary_get key1 new_dict)
      else (if truthy dictionary \<and> hasattr_get dictionary
            then dict_get dictionary keys
            else Inr PyNone))"
  by pat_completeness auto
termination
proof (relation "measure (\<lambda>(keys, dictionary). length keys)", goal_cases)
  case 1
  show ?case by simp
next
  case (2 keys dictionary key0 key1 new_dict)
  have "length (dropWhile (\<lambda>c. c \<noteq> CHR ''.'') keys) \<le> length keys"
    by (rule length_dropWhile_le)
  with 2 show ?case by auto
qed

text \<open>
  The reading of a key path the specification gives, to compare with: the path is cut
  at every dot (\<open>split_dots\<close>, Python's \<open>path.split(".")\<close>), and the descent takes one
  segment at a time, stopping with \<open>None\<close> at a node that is not a dictionary or has
  not the key (\<open>path_lookup\<close>).
\<close>

fun split_dots :: "string \<Rightarrow> string list" where
  "split_dots [] = [[]]"
| "split_dots (c # cs) =
     (if c = CHR ''.'' then [] # split_dots cs
      else (case split_dots cs of
              [] \<Rightarrow> [[c]]
            | seg # segs \<Rightarrow> (c # seg) # segs))"

fun path_lookup :: "string list \<Rightarrow> py_value \<Rightarrow> py_value" where
  "path_lookup [] node = node"
| "path_lookup (k # ks) node =
     (case node of
        PyDict items \<Rightarrow> (case map_of items k of None \<Rightarrow> PyNone | Some v \<Rightarrow> path_lookup ks v)
      | _ \<Rightarrow> PyNone)"

section \<open>Line transport: \<open>mbed_test/enhancedserial.py\<close>\<close>

subsection \<open>Python numbers\<close>

text \<open>
  A timeout is a Python \<open>int\<close> or a Python \<open>float\<close>.  A finite float is given by its
  exact value, a rational; an arithmetic result is rounded to the nearest double
  (IEEE 754 binary64: 53 bits, ties to even, gradual underflow).  Infinities and
  NaN are not values of this model, and overflow to infinity is not modelled.
\<close>

datatype number = IntN int | FloatN rat

text \<open>\<open>float_exponent x\<close> is the integer \<open>e\<close> with \<open>2^e \<le> x < 2^(e+1)\<close>, for \<open>x > 0\<close>.\<close>

definition float_exponent :: "rat \<Rightarrow> int" where
  "float_exponent x =
     (let (p, q) = quotient_of x;
          e = bitlen p - bitlen q
      in if 2 powi e \<le> x then e else e - 1)"

definition round_half_even :: "rat \<Rightarrow> int" where
  "round_half_even y =
     (let f = \<lfloor>y\<rfloor>;
          r = y - of_int f
      in if r < 1 / 2 then f
         else if 1 / 2 < r then f + 1
         else if even f then f else f + 1)"

text \<open>The double nearest to a rational: the float of a literal or of an exact result.\<close>

definition round_double :: "rat \<Rightarrow> rat" where
  "round_double x =
     (if x = 0 then 0
      else (let a = \<bar>x\<bar>;
                q = max (float_exponent a - 52) (- 1074);
                m = round_half_even (a / 2 powi q)
            in sgn x * of_int m * 2 powi q))"

fun number_value :: "number \<Rightarrow> rat" where
  "number_value (IntN i) = of_int i"
| "number_value (FloatN x) = x"

text \<open>
  \<open>k * t\<close> for an \<open>int\<close> \<open>k\<close>: exact when \<open>t\<close> is an \<open>int\<close>; otherwise \<open>k\<close> is
  converted to a float and the product of the two floats is rounded.
\<close>

fun times_int :: "int \<Rightarrow> number \<Rightarrow> number" where
  "times_int k (IntN i) = IntN (k * i)"
| "times_int k (FloatN x) = FloatN (round_double (round_double (of_int k) * x))"

text \<open>\<open>a < b\<close> and \<open>a > b\<close>: Python compares the exact values, also of an int and a float.\<close>

definition number_lt :: "number \<Rightarrow> number \<Rightarrow> bool" where
  "number_lt a b = (number_value a < number_value b)"

definition number_gt :: "number \<Rightarrow> number \<Rightarrow> bool" where
  "number_gt a b = (number_value b < number_value a)"

subsection \<open>The port and the object\<close>

text \<open>
  The serial port under \<open>EnhancedSerial\<close> is an external collaborator.  The outcome of
  the \<open>i\<close>-th call of \<open>read(512)\<close> is one of: bytes that decode to a text, bytes whose
  decoding raises (\<open>UnicodeDecodeError\<close>, a \<open>ValueError\<close>), a value that is neither
  bytes nor \<open>str\<close> (the code raises \<open>ValueError\<close> itself), one of the two serial
  exceptions, or any other exception, of \<open>read\<close> or of \<open>decode\<close>, given by its name
  (\<open>OSError\<close>, or the \<open>AttributeError\<close> of \<open>decode\<close> on a Python 3 \<open>str\<close>).
\<close>

datatype read_result =
    Data string
  | Undecodable
  | UnknownData
  | SerialTimeoutException
  | SerialException
  | OtherException string

text \<open>A break call of the port returns, or raises an exception of the given name.\<close>

datatype call_result = Returns | Raises string

record port =
  read :: "nat \<Rightarrow> read_result"
  sendBreak :: call_result
  setBreak :: call_result
  send_break :: call_result
  set_break_condition :: call_result

text \<open>
  The object: the port with the number of \<open>read\<close> calls made so far, the per-call
  timeout \<open>self.timeout\<close>, the line buffer and the detected version.
\<close>

record enhanced_serial =
  port :: port
  reads :: nat
  timeout :: number
  buf :: string
  pyserial_version :: rat
  is_pyserial_v3 :: bool

text \<open>
  \<open>get_pyserial_version\<close>: the regular expression \<open>^\d+\.\d+\<close> on the package's
  version string, the match converted to a float, and 3.0 when there is no match.
\<close>

definition is_digit :: "char \<Rightarrow> bool" where
  "is_digit c = (c \<in> set ''0123456789'')"

definition decimal :: "string \<Rightarrow> nat" where
  "decimal ds = foldl (\<lambda>n c. 10 * n + (of_char c - 48)) 0 ds"

definition get_pyserial_version :: "string \<Rightarrow> rat" where
  "get_pyserial_version pkg_version =
     (let whole = takeWhile is_digit pkg_version;
          rest = dropWhile is_digit pkg_version
      in case rest of
           [] \<Rightarrow> 3
         | c # rest1 \<Rightarrow>
             (let frac = takeWhile is_digit rest1
              in if whole \<noteq> [] \<and> c = CHR ''.'' \<and> frac \<noteq> []
                 then round_double
                        (of_nat (decimal whole) + of_nat (decimal frac) / 10 ^ length frac)
                 else 3))"

text \<open>
  \<open>EnhancedSerial.__init__\<close>: the \<open>timeout\<close> keyword (the float 0.1 when absent) is
  replaced by 0.1 when below the float 0.01; the buffer starts empty; the version is
  detected here, once.
\<close>

definition EnhancedSerial :: "number option \<Rightarrow> string \<Rightarrow> port \<Rightarrow> enhanced_serial" where
  "EnhancedSerial kw_timeout pkg_version p =
     (let timeout0 = (case kw_timeout of None \<Rightarrow> FloatN (round_double (1 / 10)) | Some t \<Rightarrow> t);
          timeout1 = (if number_lt timeout0 (FloatN (round_double (1 / 100)))
                      then FloatN (round_double (1 / 10)) else timeout0);
          version = get_pyserial_version pkg_version
      in \<lparr>port = p, reads = 0, timeout = timeout1, buf = [],
          pyserial_version = version, is_pyserial_v3 = (version \<ge> 3)\<rparr>)"

text \<open>
  \<open>_safe_sendBreak_v2_7\<close>: both calls are inside \<open>try\<close>; a failure of the second
  gives \<open>False\<close>.  The result is \<open>Inr\<close> of the returned boolean, or \<open>Inl\<close> of an
  exception that leaves the method.
\<close>

definition safe_sendBreak_v2_7 :: "enhanced_serial \<Rightarrow> string + bool" where
  "safe_sendBreak_v2_7 s =
     (case sendBreak (port s) of
        Returns \<Rightarrow> Inr True
      | Raises e \<Rightarrow>
          (case setBreak (port s) of
             Returns \<Rightarrow> Inr True
           | Raises e' \<Rightarrow> Inr False))"

text \<open>
  \<open>_safe_sendBreak_v3_0\<close>: the assignment \<open>self.break_condition = False\<close> in the
  handler is not inside a \<open>try\<close>, and \<open>result\<close> is never set to \<open>False\<close>.
\<close>

definition safe_sendBreak_v3_0 :: "enhanced_serial \<Rightarrow> string + bool" where
  "safe_sendBreak_v3_0 s =
     (case send_break (port s) of
        Returns \<Rightarrow> Inr True
      | Raises e \<Rightarrow>
          (case set_break_condition (port s) of
             Returns \<Rightarrow> Inr True
           | Raises e' \<Rightarrow> Inl e'))"

definition safe_sendBreak :: "enhanced_serial \<Rightarrow> string + bool" where
  "safe_sendBreak s =
     (if is_pyserial_v3 s then safe_sendBreak_v3_0 s else safe_sendBreak_v2_7 s)"

subsection \<open>Reading lines\<close>

abbreviation newline :: char where
  "newline \<equiv> CHR 0x0A"

text \<open>\<open>str.find\<close>: the index of the first occurrence of the character, or \<open>-1\<close>.\<close>

fun str_find :: "string \<Rightarrow> char \<Rightarrow> int" where
  "str_find [] c = - 1"
| "str_find (x # xs) c =
     (if x = c then 0 else (let r = str_find xs c in if r < 0 then - 1 else r + 1))"

text \<open>
  The \<open>try\<close> block of \<open>readline\<close> with its three handlers: the text of the \<open>i\<close>-th
  read, the empty text when the read or the decoding raised one of the exceptions
  caught, and any other exception passed on.
\<close>

definition read_block :: "port \<Rightarrow> nat \<Rightarrow> error + string" where
  "read_block p i =
     (case read p i of
        Data b \<Rightarrow> Inr b
      | Undecodable \<Rightarrow> Inr []
      | UnknownData \<Rightarrow> Inr []
      | SerialTimeoutException \<Rightarrow> Inr []
      | SerialException \<Rightarrow> Inr []
      | OtherException e \<Rightarrow> Inl (OtherError e))"

text \<open>
  The \<open>while 1\<close> loop of \<open>readline\<close>.  It need not terminate (a per-call timeout of
  zero and a port that never sends a newline), so it is a partial function: \<open>None\<close>
  is the loop that never returns.  A call that returns gives the line (\<open>Inr\<close>) or the
  exception that left it (\<open>Inl\<close>), and the object after the call.
\<close>

partial_function (option) readline_loop ::
  "number \<Rightarrow> enhanced_serial \<Rightarrow> int \<Rightarrow> ((error + string) \<times> enhanced_serial) option" where
  "readline_loop tmo s tries =
     (case read_block (port s) (reads s) of
        Inl e \<Rightarrow> Some (Inl e, s\<lparr>reads := reads s + 1\<rparr>)
      | Inr block \<Rightarrow>
          (let s1 = s\<lparr>reads := reads s + 1, buf := buf s @ block\<rparr>;
               pos = str_find (buf s1) newline
           in if pos \<ge> 0
              then Some (Inr (take (nat (pos + 1)) (buf s1)),
                         s1\<lparr>buf := drop (nat (pos + 1)) (buf s1)\<rparr>)
              else (let tries1 = tries + 1
                    in if number_gt (times_int tries1 (timeout s1)) tmo
                       then Some (Inr (buf s1), s1\<lparr>buf := []\<rparr>)
                       else readline_loop tmo s1 tries1)))"

declare readline_loop.simps [code]

definition readline ::
  "number \<Rightarrow> enhanced_serial \<Rightarrow> ((error + string) \<times> enhanced_serial) option" where
  "readline tmo s = readline_loop tmo s 0"

text \<open>
  \<open>readlines\<close>: \<open>line[-1:]\<close> is the slice of the last character; an exception of
  \<open>readline\<close> leaves \<open>readlines\<close> too.
\<close>

partial_function (option) readlines_loop ::
  "number \<Rightarrow> enhanced_serial \<Rightarrow> string list
     \<Rightarrow> ((error + string list) \<times> enhanced_serial) option" where
  "readlines_loop tmo s lines =
     (case readline tmo s of
        None \<Rightarrow> None
      | Some (Inl e, s1) \<Rightarrow> Some (Inl e, s1)
      | Some (Inr line, s1) \<Rightarrow>
          (let lines1 = (if line \<noteq> [] then lines @ [line] else lines)
           in if line = [] \<or> drop (length line - 1) line \<noteq> [newline]
              then Some (Inr lines1, s1)
              else readlines_loop tmo s1 lines1))"

declare readlines_loop.simps [code]

definition readlines ::
  "number \<Rightarrow> enhanced_serial \<Rightarrow> ((error + string list) \<times> enhanced_serial) option" where
  "readlines tmo s = readlines_loop tmo s []"

text \<open>
  For stating the properties.  \<open>delivers p i blocks\<close> says what the reads from read
  number \<open>i\<close> on bring: read \<open>i + k\<close> returns bytes decoding to \<open>blocks ! k\<close>, or
  it fails with one of the exceptions caught and \<open>blocks ! k\<close> is empty.
  \<open>readline_calls\<close> is a caller that calls \<open>readline\<close> once for each timeout of a
  list, and is \<open>Some\<close> of the lines and the final object when every call returned a
  line.
\<close>

fun delivers :: "port \<Rightarrow> nat \<Rightarrow> string list \<Rightarrow> bool" where
  "delivers p i [] = True"
| "delivers p i (b # bs) =
     ((read p i = Data b
       \<or> (b = [] \<and> read p i \<in> {Undecodable, UnknownData, SerialTimeoutException,
                                  SerialException}))
      \<and> delivers p (Suc i) bs)"

fun readline_calls ::
  "number list \<Rightarrow> enhanced_serial \<Rightarrow> (string list \<times> enhanced_serial) option" where
  "readline_calls [] s = Some ([], s)"
| "readline_calls (tmo # tmos) s =
     (case readline tmo s of
        None \<Rightarrow> None
      | Some (Inl e, s1) \<Rightarrow> None
      | Some (Inr line, s1) \<Rightarrow>
          (case readline_calls tmos s1 of
             None \<Rightarrow> None
           | Some (lines, s2) \<Rightarrow> Some (line # lines, s2)))"

section \<open>Example inputs\<close>

text \<open>
  An allocator class for the examples: \<open>allocate\<close> returns as many handles as the
  configuration counts devices.
\<close>

definition example_allocator :: "nat allocator" where
  "example_allocator =
     \<lparr>allocator_class = ''LocalAllocator'',
      allocate = (\<lambda>rc a. Inr (replicate (nat (count_duts rc)) 7))\<rparr>"

definition example_pluginmanager :: "nat pluginmanager" where
  "example_pluginmanager =
     (\<lambda>name. if name = ''local'' then Some (\<lambda>a. Inr example_allocator) else None)"

definition example_args :: args where
  "example_args =
     \<lparr>args_list = False, args_listsuites = False, args_allocator = ''local'',
      args_my_duts = None\<rparr>"

definition example_provider :: "nat resource_provider" where
  "example_provider = set_pluginmanager (init example_args) example_pluginmanager"


definition one_configuration :: resource_configuration where
  "one_configuration =
     \<lparr>count_hardware = 1, get_dut_configuration = [''{type: hardware}''], count_duts = 1\<rparr>"


definition empty_process :: "nat resource_provider process" where
  "empty_process = \<lparr>instances = Map.empty, heap = Map.empty, next_ref = 0\<rparr>"


definition other_args :: args where
  "other_args = example_args\<lparr>args_allocator := ''other''\<rparr>"

text \<open>Nested requirement configurations.\<close>

definition example_config :: py_value where
  "example_config =
     PyDict [(''duts'', PyDict [(''0'', PyDict [(''type'', PyStr ''hardware'')])]),
             (''count'', PyInt 1)]"

definition dotted_config :: py_value where
  "dotted_config = PyDict [('''', PyDict [('''', PyInt 5)])]"

definition literal_dot_config :: py_value where
  "literal_dot_config =
     PyDict [(''a'', PyDict [(''.'', PyInt 7)]), (''.'', PyInt 8)]"

text \<open>
  A port that delivers a complete line and the start of the next in its first read,
  nothing in the next three reads, and a complete line in the fifth; all its break
  calls raise.
\<close>

definition example_port :: port where
  "example_port =
     \<lparr>read = (\<lambda>i. if i = 0 then Data ''ab\<newline>cd''
                  else if i = 1 then Data []
                  else if i = 2 then SerialTimeoutException
                  else if i = 3 then Undecodable
                  else if i = 4 then Data ''ef\<newline>''
                  else Data []),
      sendBreak = Raises ''termios.error'',
      setBreak = Raises ''termios.error'',
      send_break = Raises ''termios.error'',
      set_break_condition = Raises ''termios.error''\<rparr>"

definition example_serial :: enhanced_serial where
  "example_serial = EnhancedSerial (Some (FloatN (1 / 2))) ''3.4'' example_port"

text \<open>
  A port that delivers text without a newline in its first and third read and times
  out in the second, on an object with the default per-call timeout 0.1 and the text
  \<open>x\<close> already buffered.
\<close>

definition slow_port :: port where
  "slow_port =
     \<lparr>read = (\<lambda>i. if i = 0 then Data ''ab''
                  else if i = 1 then SerialTimeoutException
                  else if i = 2 then Data ''cd''
                  else Data []),
      sendBreak = Returns, setBreak = Returns, send_break = Returns,
      set_break_condition = Returns\<rparr>"

definition slow_serial :: enhanced_serial where
  "slow_serial = (EnhancedSerial None ''3.4'' slow_port)\<lparr>buf := ''x''\<rparr>"

text \<open>A port whose first read raises an exception that \<open>readline\<close> does not catch.\<close>

definition broken_port :: port where
  "broken_port =
     \<lparr>read = (\<lambda>i. if i = 0 then OtherException ''OSError'' else Data []),
      sendBreak = Returns, setBreak = Returns, send_break = Returns,
      set_break_condition = Returns\<rparr>"

definition broken_serial :: enhanced_serial where
  "broken_serial = EnhancedSerial None ''3.4'' broken_port"



section \<open>Theorems about the orchestrator\<close>

text \<open>
  C3. When no allocator is bound and the registry lookup for the configured allocator
  name returns nothing, \<open>allocate_duts\<close> raises \<open>ResourceInitError\<close> (with the message
  naming the allocator), constructs nothing and calls no allocator, and the
  orchestrator still has no allocator bound.
\<close>

theorem allocate_duts_unknown_allocator:
  assumes "allocator s = None"
    and "pluginmanager s = Some pm"
    and "pm (args_allocator (args s)) = None"
  shows "allocate_duts s rc =
           (Inl (ResourceInitError (''Unable to load allocator '' @ args_allocator (args s))),
            s\<lparr>trace := trace s @ [GetAllocator (args_allocator (args s))]\<rparr>)
         \<and> allocator (snd (allocate_duts s rc)) = None"
  using assms by (simp add: allocate_duts_def get_allocator_def Let_def)

theorem allocate_duts_unknown_allocator_witness:
  "allocate_duts
     (set_pluginmanager (init \<lparr>args_list = False, args_listsuites = False,
        args_allocator = ''NoSuchAllocator'', args_my_duts = None\<rparr>) (\<lambda>n. None))
     \<lparr>count_hardware = 1, get_dut_configuration = [''{type: hardware}''], count_duts = 1\<rparr>
   = (Inl (ResourceInitError ''Unable to load allocator NoSuchAllocator''),
      (set_pluginmanager (init \<lparr>args_list = False, args_listsuites = False,
        args_allocator = ''NoSuchAllocator'', args_my_duts = None\<rparr>) (\<lambda>n. None))
        \<lparr>trace := [GetAllocator ''NoSuchAllocator'']\<rparr> :: nat resource_provider)"
proof -
  let ?s = "set_pluginmanager (init \<lparr>args_list = False, args_listsuites = False,
        args_allocator = ''NoSuchAllocator'', args_my_duts = None\<rparr>) (\<lambda>n. None)
        :: nat resource_provider"
  have h1: "allocator ?s = None"
    by (simp add: set_pluginmanager_def init_def)
  have h2: "pluginmanager ?s = Some (\<lambda>n. None)"
    by (simp add: set_pluginmanager_def init_def)
  have h3: "(\<lambda>n. None) (args_allocator (args ?s)) = None"
    by simp
  from allocate_duts_unknown_allocator [OF h1 h2 h3]
  have "allocate_duts ?s \<lparr>count_hardware = 1, get_dut_configuration = [''{type: hardware}''], count_duts = 1\<rparr>
     = (Inl (ResourceInitError (''Unable to load allocator '' @ args_allocator (args ?s))),
            ?s\<lparr>trace := trace ?s @ [GetAllocator (args_allocator (args ?s))]\<rparr>)"
    by (rule conjunct1)
  also have "\<dots> = (Inl (ResourceInitError ''Unable to load allocator NoSuchAllocator''),
      ?s\<lparr>trace := [GetAllocator ''NoSuchAllocator'']\<rparr>)"
    by (simp add: set_pluginmanager_def init_def)
  finally show ?thesis .
qed




text \<open>
  C2, evaluated on the code: after a successful allocation, \<open>cleanup\<close> calls the
  allocator's \<open>cleanup\<close> and leaves the allocator bound, so a second \<open>cleanup\<close> calls
  the allocator's \<open>cleanup\<close> again; \<open>__del__\<close> on the same state unbinds it.  With no
  allocator bound \<open>cleanup\<close> changes nothing.
\<close>

theorem cleanup_twice_calls_allocator_twice:
  "allocator (snd (allocate_duts example_provider one_configuration)) = Some example_allocator
   \<and> allocator (cleanup (snd (allocate_duts example_provider one_configuration)))
       = Some example_allocator
   \<and> trace (cleanup (cleanup (snd (allocate_duts example_provider one_configuration))))
       = [GetAllocator ''local'', Construct ''local'', Allocate ''LocalAllocator'',
          Cleanup ''LocalAllocator'', Cleanup ''LocalAllocator'']
   \<and> allocator (del (snd (allocate_duts example_provider one_configuration))) = None
   \<and> cleanup example_provider = example_provider"
  by (simp add: allocate_duts_def get_allocator_def Let_def cleanup_def del_def
      example_provider_def set_pluginmanager_def init_def example_args_def
      example_pluginmanager_def example_allocator_def one_configuration_def)




section \<open>Theorems about the singleton\<close>

text \<open>
  Under Python 2 the class is called through \<open>Singleton.__call__\<close>: the second
  construction returns the reference of the first, ignores its arguments and changes
  nothing.
\<close>

lemma ResourceProvider_python2_singleton:
  "fst (ResourceProvider False a2 (snd (ResourceProvider False a1 p)))
     = fst (ResourceProvider False a1 p)
   \<and> snd (ResourceProvider False a2 (snd (ResourceProvider False a1 p)))
       = snd (ResourceProvider False a1 p)"
  by (simp add: ResourceProvider_def singleton_call_def type_call_def Let_def
      split: option.splits)

text \<open>
  C10, evaluated on the code: under Python 3 two constructions of \<open>ResourceProvider\<close>
  in a fresh process give two references and two objects, the second built from the
  second construction's arguments; under Python 2 the same two constructions give
  one reference and one object.
\<close>

theorem ResourceProvider_python3_two_instances:
  "fst (ResourceProvider True example_args empty_process) = 0
   \<and> fst (ResourceProvider True other_args
            (snd (ResourceProvider True example_args empty_process))) = 1
   \<and> heap (snd (ResourceProvider True other_args
                   (snd (ResourceProvider True example_args empty_process)))) 0
       = Some (init example_args)
   \<and> heap (snd (ResourceProvider True other_args
                   (snd (ResourceProvider True example_args empty_process)))) 1
       = Some (init other_args)
   \<and> fst (ResourceProvider False example_args empty_process) = 0
   \<and> fst (ResourceProvider False other_args
            (snd (ResourceProvider False example_args empty_process))) = 0
   \<and> heap (snd (ResourceProvider False other_args
                   (snd (ResourceProvider False example_args empty_process)))) 1
       = None"
  by (simp add: ResourceProvider_def singleton_call_def type_call_def Let_def
      empty_process_def)

section \<open>Theorems about the nested lookup\<close>

lemma split_dots_no_dot: "CHR ''.'' \<notin> set keys \<Longrightarrow> split_dots keys = [keys]"
  by (induction keys) auto

lemma split_dots_dot:
  "CHR ''.'' \<in> set keys \<Longrightarrow>
   split_dots keys = takeWhile (\<lambda>c. c \<noteq> CHR ''.'') keys
                       # split_dots (tl (dropWhile (\<lambda>c. c \<noteq> CHR ''.'') keys))"
  by (induction keys) (auto split: list.splits)

lemma split_dots_nonempty: "split_dots keys \<noteq> []"
  by (induction keys) (auto split: list.splits)

lemma path_lookup_not_dict: "ks \<noteq> [] \<Longrightarrow> \<not> hasattr_get v \<Longrightarrow> path_lookup ks v = PyNone"
  by (cases ks; cases v) auto

lemma path_lookup_falsy: "ks \<noteq> [] \<Longrightarrow> \<not> truthy v \<Longrightarrow> path_lookup ks v = PyNone"
  by (cases ks; cases v) auto

lemma recursive_dictionary_get_no_raise:
  "hasattr_get dictionary \<Longrightarrow> \<exists>v. recursive_dictionary_get keys dictionary = Inr v"
proof (induction keys dictionary rule: recursive_dictionary_get.induct)
  case (1 keys dictionary)
  from "1.prems" obtain items where d: "dictionary = PyDict items" by (cases dictionary) auto
  show ?case
  proof (cases "CHR ''.'' \<in> set keys \<and> length keys > 1")
    case True
    let ?v = "case map_of items (takeWhile (\<lambda>c. c \<noteq> CHR ''.'') keys) of None \<Rightarrow> PyNone | Some v \<Rightarrow> v"
    show ?thesis
    proof (cases "\<not> truthy ?v \<or> \<not> hasattr_get ?v")
      case stop: True
      with True d show ?thesis by (subst recursive_dictionary_get.simps) (simp add: Let_def)
    next
      case go: False
      have "dict_get dictionary (takeWhile (\<lambda>c. c \<noteq> CHR ''.'') keys) = Inr ?v" by (simp add: d)
      from "1.IH" [OF True refl refl this] go
      have "\<exists>v. recursive_dictionary_get (tl (dropWhile (\<lambda>c. c \<noteq> CHR ''.'') keys)) ?v = Inr v"
        by blast
      with True d go show ?thesis by (subst recursive_dictionary_get.simps) (simp add: Let_def)
    qed
  next
    case False
    with d show ?thesis by (subst recursive_dictionary_get.simps) auto
  qed
qed

lemma recursive_dictionary_get_path:
  assumes "hasattr_get dictionary"
    and "keys \<noteq> ''.''"
    and "\<not> suffix ''..'' keys"
  shows "recursive_dictionary_get keys dictionary = Inr (path_lookup (split_dots keys) dictionary)"
  using assms
proof (induction keys dictionary rule: recursive_dictionary_get.induct)
  case (1 keys dictionary)
  from "1.prems"(1) obtain items where d: "dictionary = PyDict items" by (cases dictionary) auto
  show ?case
  proof (cases "CHR ''.'' \<in> set keys")
    case no_dot: False
    then have "split_dots keys = [keys]" by (rule split_dots_no_dot)
    with no_dot d show ?thesis
      by (subst recursive_dictionary_get.simps) (auto split: option.splits)
  next
    case dot: True
    let ?k0 = "takeWhile (\<lambda>c. c \<noteq> CHR ''.'') keys"
    let ?k1 = "tl (dropWhile (\<lambda>c. c \<noteq> CHR ''.'') keys)"
    let ?v = "case map_of items ?k0 of None \<Rightarrow> PyNone | Some v \<Rightarrow> v"
    have keys_eq: "keys = ?k0 @ CHR ''.'' # ?k1"
    proof -
      from dot have ne: "dropWhile (\<lambda>c. c \<noteq> CHR ''.'') keys \<noteq> []" by simp
      then have "hd (dropWhile (\<lambda>c. c \<noteq> CHR ''.'') keys) = CHR ''.''"
        using hd_dropWhile [of "\<lambda>c. c \<noteq> CHR ''.''" keys] by simp
      with ne have "dropWhile (\<lambda>c. c \<noteq> CHR ''.'') keys = CHR ''.'' # ?k1"
        by (cases "dropWhile (\<lambda>c. c \<noteq> CHR ''.'') keys") auto
      then show ?thesis by (metis takeWhile_dropWhile_id)
    qed
    from dot "1.prems"(2) have long: "length keys > 1"
      by (cases keys; cases "tl keys") auto
    have segs: "split_dots keys = ?k0 # split_dots ?k1" using dot by (rule split_dots_dot)
    have k1_not_dot: "?k1 \<noteq> ''.''"
    proof
      assume "?k1 = ''.''"
      with keys_eq have "keys = ?k0 @ ''..''" by simp
      then have "suffix ''..'' keys" by (metis suffixI)
      with "1.prems"(3) show False by simp
    qed
    have k1_suffix: "\<not> suffix ''..'' ?k1"
    proof
      assume "suffix ''..'' ?k1"
      then obtain pre where "?k1 = pre @ ''..''" by (auto simp: suffix_def)
      with keys_eq have "keys = (?k0 @ CHR ''.'' # pre) @ ''..''" by simp
      then have "suffix ''..'' keys" by (metis suffixI)
      with "1.prems"(3) show False by simp
    qed
    have unfold: "recursive_dictionary_get keys dictionary =
        (if \<not> truthy ?v \<or> \<not> hasattr_get ?v then Inr PyNone
         else recursive_dictionary_get ?k1 ?v)"
      using dot long d by (subst recursive_dictionary_get.simps) (simp add: Let_def)
    have spec: "path_lookup (split_dots keys) dictionary = path_lookup (split_dots ?k1) ?v"
      unfolding segs d using split_dots_nonempty [of ?k1]
      by (cases "split_dots ?k1") (auto split: option.splits)
    show ?thesis
    proof (cases "\<not> truthy ?v \<or> \<not> hasattr_get ?v")
      case True
      then have "path_lookup (split_dots ?k1) ?v = PyNone"
        using path_lookup_falsy [OF split_dots_nonempty] path_lookup_not_dict [OF split_dots_nonempty]
        by blast
      with True unfold spec show ?thesis by simp
    next
      case False
      then have h: "hasattr_get ?v" by simp
      have dg: "dict_get dictionary ?k0 = Inr ?v" by (simp add: d)
      from dot long have c: "CHR ''.'' \<in> set keys \<and> 1 < length keys" by simp
      from "1.IH" [OF c refl refl dg _ h k1_not_dot k1_suffix] False
      have "recursive_dictionary_get ?k1 ?v = Inr (path_lookup (split_dots ?k1) ?v)"
        by blast
      with False unfold spec show ?thesis by simp
    qed
  qed
qed

lemma recursive_dictionary_get_literal_dot:
  assumes "hasattr_get dictionary"
  shows "recursive_dictionary_get ''.'' dictionary = Inr (path_lookup [''.''] dictionary)"
proof -
  from assms obtain items where d: "dictionary = PyDict items" by (cases dictionary) auto
  show ?thesis
    unfolding d by (subst recursive_dictionary_get.simps) (auto split: option.splits)
qed

lemma recursive_dictionary_get_trailing_dots:
  assumes "hasattr_get dictionary"
    and "keys = pre @ ''..''"
  shows "recursive_dictionary_get keys dictionary
           = Inr (path_lookup (split_dots pre @ [''.'']) dictionary)"
  using assms
proof (induction keys dictionary arbitrary: pre rule: recursive_dictionary_get.induct)
  case (1 keys dictionary)
  from "1.prems"(1) obtain items where d: "dictionary = PyDict items" by (cases dictionary) auto
  note keys = "1.prems"(2)
  let ?k0 = "takeWhile (\<lambda>c. c \<noteq> CHR ''.'') keys"
  let ?k1 = "tl (dropWhile (\<lambda>c. c \<noteq> CHR ''.'') keys)"
  let ?v = "case map_of items ?k0 of None \<Rightarrow> PyNone | Some v \<Rightarrow> v"
  from keys have c: "CHR ''.'' \<in> set keys \<and> 1 < length keys" by simp
  have unfold: "recursive_dictionary_get keys dictionary =
      (if \<not> truthy ?v \<or> \<not> hasattr_get ?v then Inr PyNone
       else recursive_dictionary_get ?k1 ?v)"
    using c d by (subst recursive_dictionary_get.simps) (simp add: Let_def)
  have dg: "dict_get dictionary ?k0 = Inr ?v" by (simp add: d)
  show ?case
  proof (cases "CHR ''.'' \<in> set pre")
    case False
    then have no_dot: "\<And>x. x \<in> set pre \<Longrightarrow> x \<noteq> CHR ''.''" by auto
    have k0: "?k0 = pre"
      unfolding keys using takeWhile_append2 [of pre "\<lambda>c. c \<noteq> CHR ''.''" "''..''"] no_dot
      by simp
    have k1: "?k1 = ''.''"
      unfolding keys using dropWhile_append2 [of pre "\<lambda>c. c \<noteq> CHR ''.''" "''..''"] no_dot
      by simp
    from False have segs: "split_dots pre = [pre]" by (rule split_dots_no_dot)
    have segs': "split_dots pre @ [''.''] = [?k0, ''.'']"
      using segs k0 by simp
    have spec: "path_lookup (split_dots pre @ [''.'']) dictionary = path_lookup [''.''] ?v"
      unfolding segs' d by (auto split: option.splits)
    show ?thesis
    proof (cases "\<not> truthy ?v \<or> \<not> hasattr_get ?v")
      case True
      then have "path_lookup [''.''] ?v = PyNone"
        using path_lookup_falsy [of "[''.'']" ?v] path_lookup_not_dict [of "[''.'']" ?v]
        by blast
      with True unfold spec show ?thesis by simp
    next
      case go: False
      then have "hasattr_get ?v" by simp
      then have "recursive_dictionary_get ''.'' ?v = Inr (path_lookup [''.''] ?v)"
        by (rule recursive_dictionary_get_literal_dot)
      with go unfold spec k1 show ?thesis by simp
    qed
  next
    case True
    let ?pre' = "tl (dropWhile (\<lambda>c. c \<noteq> CHR ''.'') pre)"
    from True have k0: "?k0 = takeWhile (\<lambda>c. c \<noteq> CHR ''.'') pre"
      by (simp add: keys)
    from True have "dropWhile (\<lambda>c. c \<noteq> CHR ''.'') pre \<noteq> []" by simp
    with True have k1: "?k1 = ?pre' @ ''..''"
      by (simp add: keys dropWhile_append1)
    have segs: "split_dots pre = ?k0 # split_dots ?pre'"
      unfolding k0 using True by (rule split_dots_dot)
    have spec: "path_lookup (split_dots pre @ [''.'']) dictionary
                  = path_lookup (split_dots ?pre' @ [''.'']) ?v"
      unfolding segs d using split_dots_nonempty [of ?pre']
      by (cases "split_dots ?pre'") (auto split: option.splits)
    have ne: "split_dots ?pre' @ [''.''] \<noteq> []" by simp
    show ?thesis
    proof (cases "\<not> truthy ?v \<or> \<not> hasattr_get ?v")
      case stop: True
      then have "path_lookup (split_dots ?pre' @ [''.'']) ?v = PyNone"
        using path_lookup_falsy [OF ne] path_lookup_not_dict [OF ne] by blast
      with stop unfold spec show ?thesis by simp
    next
      case go: False
      then have h: "hasattr_get ?v" by simp
      from "1.IH" [OF c refl refl dg _ h k1] go
      have "recursive_dictionary_get ?k1 ?v
              = Inr (path_lookup (split_dots ?pre' @ [''.'']) ?v)"
        by blast
      with go unfold spec show ?thesis by simp
    qed
  qed
qed

text \<open>
  C9 (as the code has it). On a dictionary, \<open>recursive_dictionary_get\<close> never raises,
  for any key string.  For every key path other than \<open>"."\<close> and not ending in \<open>".."\<close>
  it returns what the descent along the dot-separated segments finds: the value
  stored at the path, and \<open>None\<close> when a segment is missing or an intermediate node
  is not a dictionary.  The key string \<open>"."\<close> is looked up as the single key \<open>"."\<close>;
  and for a path ending in \<open>".."\<close> the text before these two dots is descended
  along its dot-separated segments and the single key \<open>"."\<close> is looked up in the node
  reached.
\<close>

theorem recursive_dictionary_get_resolves_path:
  "(\<exists>v. recursive_dictionary_get keys (PyDict items) = Inr v)
   \<and> (keys \<noteq> ''.'' \<and> \<not> suffix ''..'' keys \<longrightarrow>
        recursive_dictionary_get keys (PyDict items)
          = Inr (path_lookup (split_dots keys) (PyDict items)))
   \<and> recursive_dictionary_get ''.'' (PyDict items)
       = Inr (case map_of items ''.'' of None \<Rightarrow> PyNone | Some v \<Rightarrow> v)
   \<and> (\<forall>pre. recursive_dictionary_get (pre @ ''..'') (PyDict items)
               = Inr (path_lookup (split_dots pre @ [''.'']) (PyDict items)))"
proof (intro conjI impI allI)
  show "\<exists>v. recursive_dictionary_get keys (PyDict items) = Inr v"
    by (rule recursive_dictionary_get_no_raise) simp
next
  assume "keys \<noteq> ''.'' \<and> \<not> suffix ''..'' keys"
  then show "recursive_dictionary_get keys (PyDict items)
               = Inr (path_lookup (split_dots keys) (PyDict items))"
    by (intro recursive_dictionary_get_path) simp_all
next
  have "recursive_dictionary_get ''.'' (PyDict items)
          = Inr (path_lookup [''.''] (PyDict items))"
    by (rule recursive_dictionary_get_literal_dot) simp
  then show "recursive_dictionary_get ''.'' (PyDict items)
               = Inr (case map_of items ''.'' of None \<Rightarrow> PyNone | Some v \<Rightarrow> v)"
    by (simp split: option.splits)
next
  fix pre
  show "recursive_dictionary_get (pre @ ''..'') (PyDict items)
          = Inr (path_lookup (split_dots pre @ [''.'']) (PyDict items))"
    by (rule recursive_dictionary_get_trailing_dots) simp_all
qed

theorem recursive_dictionary_get_resolves_path_witness:
  "recursive_dictionary_get ''duts.0.type'' example_config = Inr (PyStr ''hardware'')
   \<and> recursive_dictionary_get ''duts.1.type'' example_config = Inr PyNone
   \<and> recursive_dictionary_get ''count.type'' example_config = Inr PyNone
   \<and> recursive_dictionary_get ''.'' literal_dot_config = Inr (PyInt 8)
   \<and> recursive_dictionary_get ''a..'' literal_dot_config = Inr (PyInt 7)"
proof -
  let ?items = "[(''duts'', PyDict [(''0'', PyDict [(''type'', PyStr ''hardware'')])]),
                 (''count'', PyInt 1)]"
  let ?dots = "[(''a'', PyDict [(''.'', PyInt 7)]), (''.'', PyInt 8)]"
  have cfg: "example_config = PyDict ?items"
    by (simp add: example_config_def)
  have dots: "literal_dot_config = PyDict ?dots"
    by (simp add: literal_dot_config_def)
  have h1: "''duts.0.type'' \<noteq> ''.'' \<and> \<not> suffix ''..'' ''duts.0.type''"
    by (simp add: suffix_Cons)
  have h2: "''duts.1.type'' \<noteq> ''.'' \<and> \<not> suffix ''..'' ''duts.1.type''"
    by (simp add: suffix_Cons)
  have h3: "''count.type'' \<noteq> ''.'' \<and> \<not> suffix ''..'' ''count.type''"
    by (simp add: suffix_Cons)
  from recursive_dictionary_get_resolves_path [of "''duts.0.type''" ?items] h1
  have "recursive_dictionary_get ''duts.0.type'' (PyDict ?items)
          = Inr (path_lookup (split_dots ''duts.0.type'') (PyDict ?items))"
    by blast
  then have r1: "recursive_dictionary_get ''duts.0.type'' example_config = Inr (PyStr ''hardware'')"
    by (simp add: cfg)
  from recursive_dictionary_get_resolves_path [of "''duts.1.type''" ?items] h2
  have "recursive_dictionary_get ''duts.1.type'' (PyDict ?items)
          = Inr (path_lookup (split_dots ''duts.1.type'') (PyDict ?items))"
    by blast
  then have r2: "recursive_dictionary_get ''duts.1.type'' example_config = Inr PyNone"
    by (simp add: cfg)
  from recursive_dictionary_get_resolves_path [of "''count.type''" ?items] h3
  have "recursive_dictionary_get ''count.type'' (PyDict ?items)
          = Inr (path_lookup (split_dots ''count.type'') (PyDict ?items))"
    by blast
  then have r3: "recursive_dictionary_get ''count.type'' example_config = Inr PyNone"
    by (simp add: cfg)
  note t = recursive_dictionary_get_resolves_path [of "''.''" ?dots]
  have "recursive_dictionary_get ''.'' (PyDict ?dots)
          = Inr (case map_of ?dots ''.'' of None \<Rightarrow> PyNone | Some v \<Rightarrow> v)"
    by (rule conjunct1 [OF conjunct2 [OF conjunct2 [OF t]]])
  then have r4: "recursive_dictionary_get ''.'' literal_dot_config = Inr (PyInt 8)"
    by (simp add: dots)
  have "\<forall>pre. recursive_dictionary_get (pre @ ''..'') (PyDict ?dots)
               = Inr (path_lookup (split_dots pre @ [''.'']) (PyDict ?dots))"
    by (rule conjunct2 [OF conjunct2 [OF conjunct2 [OF t]]])
  then have "recursive_dictionary_get (''a'' @ ''..'') (PyDict ?dots)
               = Inr (path_lookup (split_dots ''a'' @ [''.'']) (PyDict ?dots))"
    by (rule spec)
  then have r5: "recursive_dictionary_get ''a..'' literal_dot_config = Inr (PyInt 7)"
    by (simp add: dots)
  from r1 r2 r3 r4 r5 show ?thesis by simp
qed

text \<open>
  C9 fails as stated at the key path \<open>"."\<close> (two empty segments): the value stored
  under the empty key of the dictionary under the empty key is 5, and the code, which
  takes a one-character key string as a single key, looks up the key \<open>"."\<close> and
  returns \<open>None\<close>.  The same happens to a remainder \<open>"."\<close> of a longer path.
\<close>

theorem recursive_dictionary_get_counterexample:
  "split_dots ''.'' = ['''', '''']
   \<and> path_lookup (split_dots ''.'') dotted_config = PyInt 5
   \<and> recursive_dictionary_get ''.'' dotted_config = Inr PyNone
   \<and> path_lookup (split_dots ''..'') (PyDict [('''', dotted_config)]) = PyInt 5
   \<and> recursive_dictionary_get ''..'' (PyDict [('''', dotted_config)]) = Inr PyNone"
  by (simp add: dotted_config_def)

section \<open>Theorems about the line transport\<close>

lemma str_find_absent: "c \<notin> set xs \<Longrightarrow> str_find xs c = - 1"
  by (induction xs) (auto simp: Let_def)

lemma str_find_present: "c \<in> set xs \<Longrightarrow> 0 \<le> str_find xs c"
  by (induction xs) (auto simp: Let_def)

lemma take_str_find:
  "c \<in> set xs \<Longrightarrow> take (nat (str_find xs c + 1)) xs = takeWhile (\<lambda>x. x \<noteq> c) xs @ [c]"
proof (induction xs)
  case Nil
  then show ?case by simp
next
  case (Cons x xs)
  show ?case
  proof (cases "x = c")
    case True
    then show ?thesis by simp
  next
    case False
    with Cons.prems have in_xs: "c \<in> set xs" by simp
    then have nn: "0 \<le> str_find xs c" by (rule str_find_present)
    then have "nat (str_find xs c + 1 + 1) = Suc (nat (str_find xs c + 1))" by simp
    with False nn Cons.IH [OF in_xs] show ?thesis by (simp add: Let_def)
  qed
qed

lemma drop_str_find:
  "c \<in> set xs \<Longrightarrow> drop (nat (str_find xs c + 1)) xs = tl (dropWhile (\<lambda>x. x \<noteq> c) xs)"
proof (induction xs)
  case Nil
  then show ?case by simp
next
  case (Cons x xs)
  show ?case
  proof (cases "x = c")
    case True
    then show ?thesis by simp
  next
    case False
    with Cons.prems have in_xs: "c \<in> set xs" by simp
    then have nn: "0 \<le> str_find xs c" by (rule str_find_present)
    then have "nat (str_find xs c + 1 + 1) = Suc (nat (str_find xs c + 1))" by simp
    with False nn Cons.IH [OF in_xs] show ?thesis by (simp add: Let_def)
  qed
qed


lemma delivers_read_block:
  "delivers p i (b # bs) \<Longrightarrow> read_block p i = Inr b"
  by (auto simp add: read_block_def)



lemma readline_loop_expired:
  assumes "blocks \<noteq> []"
    and "delivers (port s) (reads s) blocks"
    and "newline \<notin> set (buf s @ concat blocks)"
    and "\<forall>k. 0 < k \<and> k < length blocks
           \<longrightarrow> \<not> number_gt (times_int (tries + int k) (timeout s)) tmo"
    and "number_gt (times_int (tries + int (length blocks)) (timeout s)) tmo"
  shows "readline_loop tmo s tries
           = Some (Inr (buf s @ concat blocks),
                   s\<lparr>reads := reads s + length blocks, buf := []\<rparr>)"
  using assms
proof (induction blocks arbitrary: s tries)
  case Nil
  then show ?case by simp
next
  case (Cons b bs)
  let ?s1 = "s\<lparr>reads := reads s + 1, buf := buf s @ b\<rparr>"
  from Cons.prems(2) have rb: "read_block (port s) (reads s) = Inr b"
    by (rule delivers_read_block)
  from Cons.prems(3) have "newline \<notin> set (buf s @ b)" by simp
  then have neg: "str_find (buf s @ b) newline = - 1"
    by (rule str_find_absent)
  show ?case
  proof (cases "bs = []")
    case True
    with Cons.prems(5) have "number_gt (times_int (tries + 1) (timeout s)) tmo" by simp
    with rb neg True show ?thesis
      by (subst readline_loop.simps) (simp add: Let_def)
  next
    case False
    then have "0 < (1::nat) \<and> 1 < length (b # bs)" by simp
    with Cons.prems(4) have "\<not> number_gt (times_int (tries + int 1) (timeout s)) tmo" by blast
    then have not_yet: "\<not> number_gt (times_int (tries + 1) (timeout s)) tmo" by simp
    from Cons.prems(2) have del: "delivers (port ?s1) (reads ?s1) bs" by simp
    from Cons.prems(3) have no_nl: "newline \<notin> set (buf ?s1 @ concat bs)" by simp
    have later: "\<forall>k. 0 < k \<and> k < length bs
                   \<longrightarrow> \<not> number_gt (times_int ((tries + 1) + int k) (timeout ?s1)) tmo"
    proof (intro allI impI)
      fix k assume "0 < k \<and> k < length bs"
      then have "0 < Suc k \<and> Suc k < length (b # bs)" by simp
      with Cons.prems(4)
      have "\<not> number_gt (times_int (tries + int (Suc k)) (timeout s)) tmo" by blast
      then show "\<not> number_gt (times_int ((tries + 1) + int k) (timeout ?s1)) tmo"
        by (simp add: ac_simps)
    qed
    from Cons.prems(5)
    have last: "number_gt (times_int ((tries + 1) + int (length bs)) (timeout ?s1)) tmo"
      by (simp add: ac_simps)
    have "readline_loop tmo s tries = readline_loop tmo ?s1 (tries + 1)"
      using rb neg not_yet by (subst readline_loop.simps) (simp add: Let_def)
    also have "\<dots> = Some (Inr (buf ?s1 @ concat bs),
                            ?s1\<lparr>reads := reads ?s1 + length bs, buf := []\<rparr>)"
      by (rule Cons.IH [OF False del no_nl later last])
    finally show ?thesis by simp
  qed
qed

lemma readline_loop_found:
  assumes "blocks \<noteq> []"
    and "delivers (port s) (reads s) blocks"
    and "\<forall>k. 0 < k \<and> k < length blocks
           \<longrightarrow> newline \<notin> set (buf s @ concat (take k blocks))
               \<and> \<not> number_gt (times_int (tries + int k) (timeout s)) tmo"
    and "newline \<in> set (buf s @ concat blocks)"
  shows "readline_loop tmo s tries
           = Some (Inr (takeWhile (\<lambda>x. x \<noteq> newline) (buf s @ concat blocks) @ [newline]),
                   s\<lparr>reads := reads s + length blocks,
                     buf := tl (dropWhile (\<lambda>x. x \<noteq> newline) (buf s @ concat blocks))\<rparr>)"
  using assms
proof (induction blocks arbitrary: s tries)
  case Nil
  then show ?case by simp
next
  case (Cons b bs)
  let ?s1 = "s\<lparr>reads := reads s + 1, buf := buf s @ b\<rparr>"
  from Cons.prems(2) have rb: "read_block (port s) (reads s) = Inr b"
    by (rule delivers_read_block)
  show ?case
  proof (cases "bs = []")
    case True
    with Cons.prems(4) have here: "newline \<in> set (buf s @ b)" by simp
    then have "0 \<le> str_find (buf s @ b) newline" by (rule str_find_present)
    with rb True show ?thesis
      by (subst readline_loop.simps)
        (simp add: Let_def take_str_find [OF here] drop_str_find [OF here]
          del: take_append drop_append)
  next
    case False
    then have "0 < (1::nat) \<and> 1 < length (b # bs)" by simp
    with Cons.prems(3)
    have "newline \<notin> set (buf s @ concat (take 1 (b # bs)))
          \<and> \<not> number_gt (times_int (tries + int 1) (timeout s)) tmo"
      by blast
    then have no_here: "newline \<notin> set (buf s @ b)"
      and not_yet: "\<not> number_gt (times_int (tries + 1) (timeout s)) tmo"
      by simp_all
    from no_here have neg: "str_find (buf s @ b) newline = - 1"
      by (rule str_find_absent)
    from Cons.prems(2) have del: "delivers (port ?s1) (reads ?s1) bs" by simp
    have later: "\<forall>k. 0 < k \<and> k < length bs
                   \<longrightarrow> newline \<notin> set (buf ?s1 @ concat (take k bs))
                       \<and> \<not> number_gt (times_int ((tries + 1) + int k) (timeout ?s1)) tmo"
    proof (intro allI impI)
      fix k assume "0 < k \<and> k < length bs"
      then have "0 < Suc k \<and> Suc k < length (b # bs)" by simp
      with Cons.prems(3)
      have "newline \<notin> set (buf s @ concat (take (Suc k) (b # bs)))
            \<and> \<not> number_gt (times_int (tries + int (Suc k)) (timeout s)) tmo"
        by blast
      then show "newline \<notin> set (buf ?s1 @ concat (take k bs))
                 \<and> \<not> number_gt (times_int ((tries + 1) + int k) (timeout ?s1)) tmo"
        by (simp add: ac_simps)
    qed
    from Cons.prems(4) have has_nl: "newline \<in> set (buf ?s1 @ concat bs)" by simp
    have "readline_loop tmo s tries = readline_loop tmo ?s1 (tries + 1)"
      using rb neg not_yet by (subst readline_loop.simps) (simp add: Let_def)
    also have "\<dots> = Some (Inr (takeWhile (\<lambda>x. x \<noteq> newline) (buf ?s1 @ concat bs) @ [newline]),
                   ?s1\<lparr>reads := reads ?s1 + length bs,
                     buf := tl (dropWhile (\<lambda>x. x \<noteq> newline) (buf ?s1 @ concat bs))\<rparr>)"
      by (rule Cons.IH [OF False del later has_nl])
    finally show ?thesis by simp
  qed
qed



lemma last_slice: "drop (length l - Suc 0) l = [c] \<longleftrightarrow> (l \<noteq> [] \<and> last l = c)"
proof (cases l rule: rev_cases)
  case Nil
  then show ?thesis by simp
next
  case (snoc ys y)
  then show ?thesis by simp
qed

lemma readlines_loop_batch:
  assumes "readline_calls (replicate n tmo) s = Some (ls, s1)"
    and "\<forall>l \<in> set ls. l \<noteq> [] \<and> last l = newline"
    and "readline tmo s1 = Some (Inr l, s2)"
    and "l = [] \<or> last l \<noteq> newline"
  shows "readlines_loop tmo s acc = Some (Inr (acc @ ls @ (if l = [] then [] else [l])), s2)"
  using assms
proof (induction n arbitrary: s ls acc)
  case 0
  then have "s1 = s" and "ls = []" by simp_all
  with "0.prems"(3,4) show ?case
    by (subst readlines_loop.simps) (auto simp add: Let_def last_slice)
next
  case (Suc n)
  from Suc.prems(1) obtain line s' rest where
    first: "readline tmo s = Some (Inr line, s')" and
    others: "readline_calls (replicate n tmo) s' = Some (rest, s1)" and
    ls: "ls = line # rest"
    by (auto split: option.splits prod.splits sum.splits)
  from Suc.prems(2) ls have complete: "line \<noteq> [] \<and> last line = newline"
    and rest_complete: "\<forall>l \<in> set rest. l \<noteq> [] \<and> last l = newline"
    by simp_all
  have "readlines_loop tmo s acc = readlines_loop tmo s' (acc @ [line])"
    using first complete by (subst readlines_loop.simps) (simp add: Let_def last_slice)
  also have "\<dots> = Some (Inr ((acc @ [line]) @ rest @ (if l = [] then [] else [l])), s2)"
    by (rule Suc.IH [OF others rest_complete Suc.prems(3) Suc.prems(4)])
  finally show ?case by (simp add: ls)
qed

text \<open>
  The floats of the literals \<open>0.1\<close> and \<open>0.3\<close>, and two float products, as the
  model computes them (they are the values of Python's \<open>as_integer_ratio\<close>).
\<close>

lemma float_values:
  "round_double (1 / 10) = 3602879701896397 / 36028797018963968
   \<and> round_double (3 / 10) = 5404319552844595 / 18014398509481984
   \<and> times_int 3 (FloatN (round_double (1 / 10)))
       = FloatN (1351079888211149 / 4503599627370496)
   \<and> times_int 10 (FloatN (round_double (1 / 10))) = FloatN 1"
  by code_simp

text \<open>
  The float arithmetic of the timeout test, at the values used below: with a per-call
  timeout of 0.5 and an overall timeout of 1 the third attempt is the first to
  exceed; with 0.1 and 0.3 it is the third as well (the float product \<open>3 * 0.1\<close> is
  above the float 0.3); with the defaults 0.1 and 1 it is the eleventh (the float
  product \<open>10 * 0.1\<close> is 1.0).
\<close>

lemma budget_half_one:
  "\<not> number_gt (times_int 1 (FloatN (1 / 2))) (IntN 1)
   \<and> \<not> number_gt (times_int 2 (FloatN (1 / 2))) (IntN 1)
   \<and> number_gt (times_int 3 (FloatN (1 / 2))) (IntN 1)"
  by code_simp

lemma budget_tenth_three_tenths:
  "\<not> number_gt (times_int 1 (FloatN (round_double (1 / 10)))) (FloatN (round_double (3 / 10)))
   \<and> \<not> number_gt (times_int 2 (FloatN (round_double (1 / 10)))) (FloatN (round_double (3 / 10)))
   \<and> number_gt (times_int 3 (FloatN (round_double (1 / 10)))) (FloatN (round_double (3 / 10)))"
  by code_simp

lemma budget_defaults:
  "\<not> number_gt (times_int 10 (FloatN (round_double (1 / 10)))) (IntN 1)
   \<and> number_gt (times_int 11 (FloatN (round_double (1 / 10)))) (IntN 1)"
  by code_simp

lemma default_timeout_kept:
  "\<not> number_lt (FloatN (round_double (1 / 10))) (FloatN (round_double (1 / 100)))
   \<and> \<not> number_lt (FloatN (1 / 2)) (FloatN (round_double (1 / 100)))"
  by code_simp

lemma version_3_4: "3 \<le> get_pyserial_version ''3.4''"
  by code_simp

lemma version_2_7: "\<not> 3 \<le> get_pyserial_version ''2.7''"
  by code_simp

lemma example_serial_eq:
  "example_serial = \<lparr>port = example_port, reads = 0, timeout = FloatN (1 / 2), buf = [],
          pyserial_version = get_pyserial_version ''3.4'', is_pyserial_v3 = True\<rparr>"
  using default_timeout_kept version_3_4
  by (simp add: example_serial_def EnhancedSerial_def Let_def)

lemma slow_serial_eq:
  "slow_serial = \<lparr>port = slow_port, reads = 0, timeout = FloatN (round_double (1 / 10)),
          buf = ''x'', pyserial_version = get_pyserial_version ''3.4'',
          is_pyserial_v3 = True\<rparr>"
  using default_timeout_kept version_3_4
  by (simp add: slow_serial_def EnhancedSerial_def Let_def)


lemma example_first_line:
  "readline (IntN 1) example_serial
     = Some (Inr ''ab\<newline>'', example_serial\<lparr>reads := 1, buf := ''cd''\<rparr>)"
proof -
  have "readline_loop (IntN 1) example_serial 0
          = Some (Inr (takeWhile (\<lambda>x. x \<noteq> newline)
                         (buf example_serial @ concat [''ab\<newline>cd'']) @ [newline]),
                  example_serial\<lparr>reads := reads example_serial + length [''ab\<newline>cd''],
                    buf := tl (dropWhile (\<lambda>x. x \<noteq> newline)
                                (buf example_serial @ concat [''ab\<newline>cd'']))\<rparr>)"
    by (rule readline_loop_found) (simp_all add: example_serial_eq example_port_def)
  then show ?thesis by (simp add: readline_def example_serial_eq)
qed

lemma example_second_line:
  "readline (IntN 1) (example_serial\<lparr>reads := 1, buf := ''cd''\<rparr>)
     = Some (Inr ''cd'', example_serial\<lparr>reads := 4, buf := []\<rparr>)"
proof -
  let ?s = "example_serial\<lparr>reads := 1, buf := ''cd''\<rparr>"
  have h1: "[[], [], []] \<noteq> ([] :: string list)" by simp
  have h2: "delivers (port ?s) (reads ?s) [[], [], []]"
    by (simp add: example_serial_eq example_port_def)
  have h3: "newline \<notin> set (buf ?s @ concat [[], [], []])" by simp
  have h4: "\<forall>k. 0 < k \<and> k < length [[], [], [] :: string]
              \<longrightarrow> \<not> number_gt (times_int (0 + int k) (timeout ?s)) (IntN 1)"
  proof (intro allI impI)
    fix k :: nat assume "0 < k \<and> k < length [[], [], [] :: string]"
    then have "k = 1 \<or> k = 2" by auto
    then show "\<not> number_gt (times_int (0 + int k) (timeout ?s)) (IntN 1)"
      using budget_half_one by (auto simp add: example_serial_eq)
  qed
  have h5: "number_gt (times_int (0 + int (length [[], [], [] :: string])) (timeout ?s)) (IntN 1)"
    using budget_half_one by (simp add: example_serial_eq)
  have "readline_loop (IntN 1) ?s 0
          = Some (Inr (buf ?s @ concat [[], [], []]),
                  ?s\<lparr>reads := reads ?s + length [[], [], [] :: string], buf := []\<rparr>)"
    by (rule readline_loop_expired [OF h1 h2 h3 h4 h5])
  then show ?thesis by (simp add: readline_def)
qed

lemma readline_other_exception:
  assumes "read (port s) (reads s) = OtherException e"
  shows "readline tmo s = Some (Inl (OtherError e), s\<lparr>reads := reads s + 1\<rparr>)"
  unfolding readline_def using assms
  by (subst readline_loop.simps) (simp add: read_block_def)

text \<open>
  C5 (as the code has it). Let the next reads bring the texts \<open>blocks\<close>, each read
  returning bytes or failing with one of the exceptions caught; let their number be
  the first number of attempts whose product with the per-call timeout, as Python
  computes it, exceeds the overall timeout; and let the buffer followed by these
  texts hold no newline.  Then \<open>readline\<close> returns after exactly these reads, the
  line is the buffer followed by all these texts (possibly empty), nothing is raised,
  and the buffer is empty afterwards.
\<close>

theorem readline_timeout_returns_buffer:
  assumes "blocks \<noteq> []"
    and "delivers (port s) (reads s) blocks"
    and "newline \<notin> set (buf s @ concat blocks)"
    and "\<forall>k. 0 < k \<and> k < length blocks
           \<longrightarrow> \<not> number_gt (times_int (int k) (timeout s)) tmo"
    and "number_gt (times_int (int (length blocks)) (timeout s)) tmo"
  shows "readline tmo s
           = Some (Inr (buf s @ concat blocks),
                   s\<lparr>reads := reads s + length blocks, buf := []\<rparr>)"
proof -
  from assms(4)
  have "\<forall>k. 0 < k \<and> k < length blocks
          \<longrightarrow> \<not> number_gt (times_int (0 + int k) (timeout s)) tmo"
    by simp
  moreover from assms(5)
  have "number_gt (times_int (0 + int (length blocks)) (timeout s)) tmo"
    by simp
  ultimately show ?thesis
    unfolding readline_def using assms(1,2,3) by (intro readline_loop_expired)
qed

theorem readline_timeout_returns_buffer_witness:
  "readline (FloatN (round_double (3 / 10))) slow_serial
     = Some (Inr ''xabcd'', slow_serial\<lparr>reads := 3, buf := []\<rparr>)"
proof -
  let ?tmo = "FloatN (round_double (3 / 10))"
  let ?blocks = "[''ab'', [], ''cd'']"
  have h1: "?blocks \<noteq> []" by simp
  have h2: "delivers (port slow_serial) (reads slow_serial) ?blocks"
    by (simp add: slow_serial_eq slow_port_def)
  have h3: "newline \<notin> set (buf slow_serial @ concat ?blocks)"
    by (simp add: slow_serial_eq)
  have h4: "\<forall>k. 0 < k \<and> k < length ?blocks
              \<longrightarrow> \<not> number_gt (times_int (int k) (timeout slow_serial)) ?tmo"
  proof (intro allI impI)
    fix k :: nat assume "0 < k \<and> k < length ?blocks"
    then have "k = 1 \<or> k = 2" by auto
    then show "\<not> number_gt (times_int (int k) (timeout slow_serial)) ?tmo"
      using budget_tenth_three_tenths by (auto simp add: slow_serial_eq)
  qed
  have h5: "number_gt (times_int (int (length ?blocks)) (timeout slow_serial)) ?tmo"
    using budget_tenth_three_tenths by (simp add: slow_serial_eq)
  have "readline ?tmo slow_serial
          = Some (Inr (buf slow_serial @ concat ?blocks),
                  slow_serial\<lparr>reads := reads slow_serial + length ?blocks, buf := []\<rparr>)"
    by (rule readline_timeout_returns_buffer [OF h1 h2 h3 h4 h5])
  then show ?thesis by (simp add: slow_serial_eq)
qed

text \<open>
  C5 fails as stated for a channel whose read raises an exception other than the three
  that \<open>readline\<close> catches: the channel delivers no newline, and \<open>readline\<close> raises
  instead of returning the buffer.
\<close>

theorem readline_timeout_counterexample:
  "read (port broken_serial) (reads broken_serial) = OtherException ''OSError''
   \<and> readline (IntN 1) broken_serial
       = Some (Inl (OtherError ''OSError''), broken_serial\<lparr>reads := 1\<rparr>)"
proof -
  have r: "read (port broken_serial) (reads broken_serial) = OtherException ''OSError''"
    by (simp add: broken_serial_def EnhancedSerial_def Let_def broken_port_def)
  have "reads broken_serial = 0"
    by (simp add: broken_serial_def EnhancedSerial_def Let_def)
  with readline_other_exception [OF r, of "IntN 1"] r show ?thesis by simp
qed



text \<open>
  C7. If \<open>n\<close> successive \<open>readline\<close> calls return complete lines (non-empty, ending
  in a newline) and the next call returns a line that is empty or does not end in a
  newline, then \<open>readlines\<close> returns: its result is the complete lines in order,
  followed by that last line when it is not empty, and nothing is read after it.
\<close>

theorem readlines_stops_at_incomplete_line:
  assumes "readline_calls (replicate n tmo) s = Some (ls, s1)"
    and "\<forall>l \<in> set ls. l \<noteq> [] \<and> last l = newline"
    and "readline tmo s1 = Some (Inr l, s2)"
    and "l = [] \<or> last l \<noteq> newline"
  shows "readlines tmo s = Some (Inr (ls @ (if l = [] then [] else [l])), s2)"
  unfolding readlines_def
  using readlines_loop_batch [OF assms, of "[]"] by simp

theorem readlines_stops_at_incomplete_line_witness:
  "readlines (IntN 1) example_serial
     = Some (Inr [''ab\<newline>'', ''cd''], example_serial\<lparr>reads := 4, buf := []\<rparr>)
   \<and> read example_port 4 = Data ''ef\<newline>''"
proof -
  have h1: "readline_calls (replicate 1 (IntN 1)) example_serial
              = Some ([''ab\<newline>''], example_serial\<lparr>reads := 1, buf := ''cd''\<rparr>)"
    by (simp add: example_first_line)
  have h2: "\<forall>l \<in> set [''ab\<newline>'']. l \<noteq> [] \<and> last l = newline"
    by simp
  have h4: "''cd'' = [] \<or> last ''cd'' \<noteq> newline"
    by simp
  from readlines_stops_at_incomplete_line [OF h1 h2 example_second_line h4]
  have "readlines (IntN 1) example_serial
          = Some (Inr [''ab\<newline>'', ''cd''], example_serial\<lparr>reads := 4, buf := []\<rparr>)"
    by simp
  moreover have "read example_port 4 = Data ''ef\<newline>''"
    by (simp add: example_port_def)
  ultimately show ?thesis by simp
qed

text \<open>
  C8, evaluated on the code: on a 3.x backend whose \<open>send_break\<close> raises and whose
  \<open>break_condition\<close> assignment raises too, \<open>safe_sendBreak\<close> lets the exception
  out instead of returning a boolean; on a 2.7 backend with the same failing port the
  sibling implementation returns \<open>False\<close>.
\<close>

theorem safe_sendBreak_v3_fallback_raises:
  "is_pyserial_v3 example_serial
   \<and> safe_sendBreak example_serial = Inl ''termios.error''
   \<and> \<not> is_pyserial_v3 (EnhancedSerial None ''2.7'' example_port)
   \<and> safe_sendBreak (EnhancedSerial None ''2.7'' example_port) = Inr False"
  using version_3_4 version_2_7
  by (simp add: example_serial_def EnhancedSerial_def Let_def safe_sendBreak_def
      safe_sendBreak_v3_0_def safe_sendBreak_v2_7_def example_port_def)

end
